theory Spec2Isabelle
  imports Main
begin

section \<open>Data model\<close>

text \<open>
  The repository is an AppSync API over one DynamoDB table. Its logic lives in the
  request and response mapping templates of five resolvers, present in two variants:
  \<^verbatim>\<open>src/lib/aws-movie-app-backend-stack.ts\<close> (non-admin listing by a filtered Scan)
  and \<^verbatim>\<open>src/unnamed/part_000\<close> (non-admin listing by a Query on the index
  \<^verbatim>\<open>CreatedByIndex\<close>). Each resolver is the composition
  request template, data source, response template.
\<close>

text \<open>An item of the table: the key \<^verbatim>\<open>id\<close> and the attributes written by createMovie.\<close>

record movie =
  movie_id :: string
  title :: "string option"
  publishingYear :: "int option"
  poster :: "string option"
  createdBy :: string
  createdByEmail :: string

text \<open>
  \<^verbatim>\<open>$ctx.identity\<close>: \<^verbatim>\<open>sub\<close>, \<^verbatim>\<open>claims.email\<close> and
  \<^verbatim>\<open>claims["cognito:groups"]\<close>, which is absent for a user in no group.
\<close>

record identity =
  sub :: string
  email :: string
  groups :: "string list option"

text \<open>The continuation token is opaque to the templates; the store reads it as a position.\<close>

type_synonym token = nat

text \<open>\<^verbatim>\<open>$ctx.error\<close> of the data source: message and type.\<close>

datatype ds_error = DsError (ds_message: string) (ds_type: string)

text \<open>What \<^verbatim>\<open>$util.error(message, type)\<close> raises: it ends the template.\<close>

datatype gql_error = GqlError (message: string) (errorType: string)

text \<open>Arguments of listMovies, and the mutable fields given to createMovie and updateMovie.\<close>

record list_args =
  arg_limit :: "int option"
  arg_nextToken :: "token option"

record movie_args =
  arg_title :: "string option"
  arg_publishingYear :: "int option"
  arg_poster :: "string option"

text \<open>The \<^verbatim>\<open>MovieConnection\<close> returned by listMovies.\<close>

record connection =
  conn_items :: "movie list option"
  conn_nextToken :: "token option"

datatype variant = ScanVariant | QueryVariant

section \<open>The DynamoDB data source\<close>

text \<open>
  The store is a managed service outside the repository. Its operations are modelled as
  the templates use them and as the specification describes its adapter: a lookup by
  key, an unconditional put, an update that fails its condition on a missing key, a
  delete that hands back the item it removed, and paged listings. Transient faults of
  the service are not modelled; the response templates pass any error of the data
  source on.

  The table is the list of its items in scan order; the partition key \<^verbatim>\<open>id\<close>
  identifies at most one item and is never the empty string, which the store refuses as
  a key value.
\<close>

type_synonym table = "movie list"

definition wf_table :: "table \<Rightarrow> bool" where
  "wf_table t = (distinct (map movie_id t) \<and> [] \<notin> set (map movie_id t))"

definition getItem :: "table \<Rightarrow> string \<Rightarrow> movie option" where
  "getItem t k = find (\<lambda>m. movie_id m = k) t"

definition putItem :: "table \<Rightarrow> movie \<Rightarrow> table" where
  "putItem t m =
     (if getItem t (movie_id m) = None then t @ [m]
      else map (\<lambda>x. if movie_id x = movie_id m then m else x) t)"

definition updateItem :: "table \<Rightarrow> string \<Rightarrow> (movie \<Rightarrow> movie) \<Rightarrow> table" where
  "updateItem t k f = map (\<lambda>m. if movie_id m = k then f m else m) t"

definition deleteItem :: "table \<Rightarrow> string \<Rightarrow> table" where
  "deleteItem t k = filter (\<lambda>m. movie_id m \<noteq> k) t"

text \<open>
  The single-item requests the templates build. \<^verbatim>\<open>UpdateItem\<close> carries the
  expression \<^verbatim>\<open>SET title = :title, publishingYear = :year, poster = :poster\<close> with
  the condition \<^verbatim>\<open>attribute_exists(id)\<close>; \<^verbatim>\<open>PutItem\<close> and
  \<^verbatim>\<open>DeleteItem\<close> carry no condition.
\<close>

datatype item_request =
    GetItem string
  | PutItem string "string option" "int option" "string option" string string
  | UpdateItem string "string option" "int option" "string option"
  | DeleteItem string

record item_ctx =
  ctx_error :: "ds_error option"
  ctx_result :: "movie option"

definition conditionalCheckFailed :: ds_error where
  "conditionalCheckFailed =
     DsError ''The conditional request failed'' ''DynamoDB:ConditionalCheckFailedException''"

text \<open>
  A request whose key is the empty string is refused by the store with a validation
  error, before any item is looked up. The key of a \<^verbatim>\<open>PutItem\<close> is the value of
  \<^verbatim>\<open>$util.autoId()\<close>, a generated identifier.
\<close>

definition emptyKey :: ds_error where
  "emptyKey =
     DsError ''The AttributeValue for a key attribute cannot contain an empty string value. Key: id''
       ''DynamoDB:DynamoDbException''"

definition refusedKey :: item_ctx where
  "refusedKey = \<lparr>ctx_error = Some emptyKey, ctx_result = None\<rparr>"

fun executeItem :: "table \<Rightarrow> item_request \<Rightarrow> item_ctx \<times> table" where
  "executeItem t (GetItem k) =
     (if k = [] then (refusedKey, t)
      else (\<lparr>ctx_error = None, ctx_result = getItem t k\<rparr>, t))"
| "executeItem t (PutItem k ti y p cb cbe) =
     (let m = \<lparr>movie_id = k, title = ti, publishingYear = y, poster = p,
                createdBy = cb, createdByEmail = cbe\<rparr>
      in (\<lparr>ctx_error = None, ctx_result = Some m\<rparr>, putItem t m))"
| "executeItem t (UpdateItem k ti y p) =
     (if k = [] then (refusedKey, t)
      else (case getItem t k of
        None \<Rightarrow> (\<lparr>ctx_error = Some conditionalCheckFailed, ctx_result = None\<rparr>, t)
      | Some m \<Rightarrow>
          (let upd = (\<lambda>x. x\<lparr>title := ti, publishingYear := y, poster := p\<rparr>)
           in (\<lparr>ctx_error = None, ctx_result = Some (upd m)\<rparr>, updateItem t k upd))))"
| "executeItem t (DeleteItem k) =
     (if k = [] then (refusedKey, t)
      else (\<lparr>ctx_error = None, ctx_result = getItem t k\<rparr>, deleteItem t k))"

text \<open>
  The listing requests: a Scan with a limit, an optional filter
  \<^verbatim>\<open>createdBy = :user\<close> and an optional token; a Query on an index with the key
  condition \<^verbatim>\<open>createdBy = :user\<close>, a limit and an optional token.
\<close>

datatype list_request =
    Scan int "string option" "token option"
  | Query string string int "token option"

record list_ctx =
  lctx_error :: "ds_error option"
  lctx_items :: "movie list option"
  lctx_nextToken :: "token option"

definition offset :: "token option \<Rightarrow> nat" where
  "offset tok = (case tok of None \<Rightarrow> 0 | Some n \<Rightarrow> n)"

text \<open>
  One page: the store evaluates at most \<^verbatim>\<open>limit\<close> items from the position of the
  token and hands out a new token exactly when it stopped because the limit was reached.
\<close>

definition page :: "movie list \<Rightarrow> int \<Rightarrow> token option \<Rightarrow> movie list \<times> token option" where
  "page xs limit tok =
     (let evaluated = take (nat limit) (drop (offset tok) xs)
      in (evaluated,
          if length evaluated = nat limit then Some (offset tok + nat limit) else None))"

definition invalidLimit :: ds_error where
  "invalidLimit = DsError ''Limit must be greater than or equal to 1'' ''DynamoDB:DynamoDbException''"

definition unknownIndex :: ds_error where
  "unknownIndex = DsError ''The table does not have the specified index'' ''DynamoDB:DynamoDbException''"

definition failedList :: "ds_error \<Rightarrow> list_ctx" where
  "failedList e = \<lparr>lctx_error = Some e, lctx_items = None, lctx_nextToken = None\<rparr>"

text \<open>
  The expression \<^verbatim>\<open>createdBy = :user\<close> selects the items created by the user; a
  Scan may carry it as a filter.
\<close>

definition owned :: "string \<Rightarrow> movie list \<Rightarrow> movie list" where
  "owned u xs = filter (\<lambda>m. createdBy m = u) xs"

definition applyFilter :: "string option \<Rightarrow> movie list \<Rightarrow> movie list" where
  "applyFilter flt xs = (case flt of None \<Rightarrow> xs | Some u \<Rightarrow> owned u xs)"

text \<open>
  A Scan applies its filter after the limit: the page holds the matching items among the
  evaluated ones. A Query reads the index partition of the user, which projects all
  attributes (\<^verbatim>\<open>ProjectionType.ALL\<close>).
\<close>

fun executeList :: "table \<Rightarrow> list_request \<Rightarrow> list_ctx" where
  "executeList t (Scan limit flt tok) =
     (if limit < 1 then failedList invalidLimit
      else (let (evaluated, next) = page t limit tok
            in \<lparr>lctx_error = None,
                lctx_items = Some (applyFilter flt evaluated),
                lctx_nextToken = next\<rparr>))"
| "executeList t (Query idx u limit tok) =
     (if idx \<noteq> ''CreatedByIndex'' then failedList unknownIndex
      else if limit < 1 then failedList invalidLimit
      else (let (evaluated, next) = page (owned u t) limit tok
            in \<lparr>lctx_error = None, lctx_items = Some evaluated, lctx_nextToken = next\<rparr>))"

section \<open>The resolvers\<close>

subsection \<open>Group membership\<close>

text \<open>listMovies tests \<^verbatim>\<open>claims["cognito:groups"].contains("Admins")\<close>.\<close>

definition groupsContainAdmins :: "identity \<Rightarrow> bool" where
  "groupsContainAdmins I =
     (case groups I of None \<Rightarrow> False | Some gs \<Rightarrow> ''Admins'' \<in> set gs)"

text \<open>The other resolvers set \<^verbatim>\<open>$isAdmin\<close> in a \<^verbatim>\<open>#foreach\<close> over the groups.\<close>

definition isAdmin :: "identity \<Rightarrow> bool" where
  "isAdmin I =
     (case groups I of
        None \<Rightarrow> False
      | Some gs \<Rightarrow> fold (\<lambda>g a. if g = ''Admins'' then True else a) gs False)"

subsection \<open>The rendered request\<close>

text \<open>
  A request template is evaluated to a text that must be a JSON object; a text that is
  not one is refused with the error type \<^verbatim>\<open>MappingTemplate\<close>, the data source is
  not called and the response template is not run. What decides here is the top level
  of the object: its members, by key, and the commas as the template writes them. The
  nested objects of all five templates separate their members properly.
\<close>

datatype json_piece = Member string | Comma

fun wellFormedMembers :: "json_piece list \<Rightarrow> bool" where
  "wellFormedMembers [] = True"
| "wellFormedMembers [Member n] = True"
| "wellFormedMembers (Member n # Comma # Member n' # ps) = wellFormedMembers (Member n' # ps)"
| "wellFormedMembers ps = False"

definition mappingTemplateError :: gql_error where
  "mappingTemplateError = GqlError ''Unable to parse the JSON document'' ''MappingTemplate''"

definition parseTemplate :: "json_piece list \<Rightarrow> 'a \<Rightarrow> gql_error + 'a" where
  "parseTemplate ps r = (if wellFormedMembers ps then Inr r else Inl mappingTemplateError)"

text \<open>
  The top levels of the five request templates. The templates of updateMovie and of
  deleteMovie write a comma after their last member (\<^verbatim>\<open>"condition": {...},\<close> and
  \<^verbatim>\<open>"key": {...},\<close> before the closing brace), in both variants; the others do not.
\<close>

definition listMoviesTemplate :: "variant \<Rightarrow> identity \<Rightarrow> list_args \<Rightarrow> json_piece list" where
  "listMoviesTemplate v I a =
     (if groupsContainAdmins I
      then [Member ''version'', Comma, Member ''operation'', Comma, Member ''limit'']
      else (case v of
              ScanVariant \<Rightarrow>
                [Member ''version'', Comma, Member ''operation'', Comma, Member ''limit'', Comma,
                 Member ''filter'']
            | QueryVariant \<Rightarrow>
                [Member ''version'', Comma, Member ''operation'', Comma, Member ''index'', Comma,
                 Member ''query'', Comma, Member ''limit'']))
     @ (case arg_nextToken a of None \<Rightarrow> [] | Some n \<Rightarrow> [Comma, Member ''nextToken''])"

definition getMovieTemplate :: "json_piece list" where
  "getMovieTemplate = [Member ''version'', Comma, Member ''operation'', Comma, Member ''key'']"

definition createMovieTemplate :: "json_piece list" where
  "createMovieTemplate =
     [Member ''version'', Comma, Member ''operation'', Comma, Member ''key'', Comma,
      Member ''attributeValues'']"

definition updateMovieTemplate :: "json_piece list" where
  "updateMovieTemplate =
     [Member ''version'', Comma, Member ''operation'', Comma, Member ''key'', Comma,
      Member ''update'', Comma, Member ''condition'', Comma]"

definition deleteMovieTemplate :: "json_piece list" where
  "deleteMovieTemplate =
     [Member ''version'', Comma, Member ''operation'', Comma, Member ''key'', Comma]"

subsection \<open>listMovies\<close>

definition defaultLimit :: "variant \<Rightarrow> int" where
  "defaultLimit v = (case v of ScanVariant \<Rightarrow> 11 | QueryVariant \<Rightarrow> 10)"

text \<open>\<^verbatim>\<open>$util.defaultIfNull(value, default)\<close>.\<close>

definition defaultIfNull :: "'a option \<Rightarrow> 'a \<Rightarrow> 'a" where
  "defaultIfNull x d = (case x of None \<Rightarrow> d | Some y \<Rightarrow> y)"

definition listMoviesRequest :: "variant \<Rightarrow> identity \<Rightarrow> list_args \<Rightarrow> list_request" where
  "listMoviesRequest v I a =
     (let limit = defaultIfNull (arg_limit a) (defaultLimit v)
      in if groupsContainAdmins I then Scan limit None (arg_nextToken a)
         else (case v of
                 ScanVariant \<Rightarrow> Scan limit (Some (sub I)) (arg_nextToken a)
               | QueryVariant \<Rightarrow> Query ''CreatedByIndex'' (sub I) limit (arg_nextToken a)))"

definition listMoviesResponse :: "variant \<Rightarrow> list_ctx \<Rightarrow> gql_error + connection" where
  "listMoviesResponse v ctx =
     (case lctx_error ctx of
        Some e \<Rightarrow> Inl (GqlError (ds_message e) (ds_type e))
      | None \<Rightarrow>
          (case v of
             ScanVariant \<Rightarrow>
               (if lctx_items ctx = None \<or> lctx_items ctx = Some []
                then Inr \<lparr>conn_items = Some [], conn_nextToken = None\<rparr>
                else Inr \<lparr>conn_items = lctx_items ctx, conn_nextToken = lctx_nextToken ctx\<rparr>)
           | QueryVariant \<Rightarrow>
               Inr \<lparr>conn_items = lctx_items ctx, conn_nextToken = lctx_nextToken ctx\<rparr>))"

definition listMovies :: "variant \<Rightarrow> table \<Rightarrow> identity \<Rightarrow> list_args \<Rightarrow> gql_error + connection" where
  "listMovies v t I a = listMoviesResponse v (executeList t (listMoviesRequest v I a))"

subsection \<open>getMovie\<close>

definition getMovieRequest :: "string \<Rightarrow> item_request" where
  "getMovieRequest k = GetItem k"

definition getMovieResponse :: "identity \<Rightarrow> item_ctx \<Rightarrow> gql_error + movie option" where
  "getMovieResponse I ctx =
     (case ctx_error ctx of
        Some e \<Rightarrow> Inl (GqlError (ds_message e) (ds_type e))
      | None \<Rightarrow>
          (case ctx_result ctx of
             None \<Rightarrow> Inl (GqlError ''Movie not found'' ''NotFound'')
           | Some r \<Rightarrow>
               (if createdBy r = sub I \<or> isAdmin I then Inr (Some r)
                else Inl (GqlError ''Unauthorized to view this movie'' ''Unauthorized''))))"

definition getMovie :: "table \<Rightarrow> identity \<Rightarrow> string \<Rightarrow> (gql_error + movie option) \<times> table" where
  "getMovie t I k =
     (let (ctx, t') = executeItem t (getMovieRequest k) in (getMovieResponse I ctx, t'))"

subsection \<open>createMovie\<close>

text \<open>The first argument is the value of \<^verbatim>\<open>$util.autoId()\<close> in this call.\<close>

definition createMovieRequest :: "string \<Rightarrow> identity \<Rightarrow> movie_args \<Rightarrow> item_request" where
  "createMovieRequest autoId I a =
     PutItem autoId (arg_title a) (arg_publishingYear a) (arg_poster a) (sub I) (email I)"

definition createMovieResponse :: "item_ctx \<Rightarrow> gql_error + movie option" where
  "createMovieResponse ctx =
     (case ctx_error ctx of
        Some e \<Rightarrow> Inl (GqlError (ds_message e) (ds_type e))
      | None \<Rightarrow> Inr (ctx_result ctx))"

definition createMovie ::
  "table \<Rightarrow> string \<Rightarrow> identity \<Rightarrow> movie_args \<Rightarrow> (gql_error + movie option) \<times> table" where
  "createMovie t autoId I a =
     (let (ctx, t') = executeItem t (createMovieRequest autoId I a)
      in (createMovieResponse ctx, t'))"

subsection \<open>updateMovie\<close>

text \<open>
  \<open>updateMovieObject\<close> is the request the template spells out; \<open>updateMovieRequest\<close>
  is what the evaluation of the template as written yields.
\<close>

definition updateMovieObject :: "string \<Rightarrow> movie_args \<Rightarrow> item_request" where
  "updateMovieObject k a = UpdateItem k (arg_title a) (arg_publishingYear a) (arg_poster a)"

definition updateMovieRequest :: "string \<Rightarrow> movie_args \<Rightarrow> gql_error + item_request" where
  "updateMovieRequest k a = parseTemplate updateMovieTemplate (updateMovieObject k a)"

text \<open>
  This template has no test of \<^verbatim>\<open>$ctx.result\<close>: on a null result the comparison
  of \<^verbatim>\<open>createdBy\<close> is false and only \<^verbatim>\<open>$isAdmin\<close> decides.
\<close>

definition updateMovieResponse :: "identity \<Rightarrow> item_ctx \<Rightarrow> gql_error + movie option" where
  "updateMovieResponse I ctx =
     (case ctx_error ctx of
        Some e \<Rightarrow>
          (if ds_type e = ''DynamoDB:ConditionalCheckFailedException''
           then Inl (GqlError ''Movie not found'' ''NotFound'')
           else Inl (GqlError (ds_message e) (ds_type e)))
      | None \<Rightarrow>
          (if (case ctx_result ctx of None \<Rightarrow> False | Some r \<Rightarrow> createdBy r = sub I) \<or> isAdmin I
           then Inr (ctx_result ctx)
           else Inl (GqlError ''Unauthorized to update this movie'' ''Unauthorized'')))"

definition updateMovie ::
  "table \<Rightarrow> identity \<Rightarrow> string \<Rightarrow> movie_args \<Rightarrow> (gql_error + movie option) \<times> table" where
  "updateMovie t I k a =
     (case updateMovieRequest k a of
        Inl e \<Rightarrow> (Inl e, t)
      | Inr r \<Rightarrow> (let (ctx, t') = executeItem t r in (updateMovieResponse I ctx, t')))"

subsection \<open>deleteMovie\<close>

definition deleteMovieObject :: "string \<Rightarrow> item_request" where
  "deleteMovieObject k = DeleteItem k"


definition deleteMovieResponse :: "identity \<Rightarrow> item_ctx \<Rightarrow> gql_error + movie option" where
  "deleteMovieResponse I ctx =
     (case ctx_error ctx of
        Some e \<Rightarrow> Inl (GqlError (ds_message e) (ds_type e))
      | None \<Rightarrow>
          (case ctx_result ctx of
             None \<Rightarrow> Inl (GqlError ''Movie not found'' ''NotFound'')
           | Some r \<Rightarrow>
               (if createdBy r = sub I \<or> isAdmin I then Inr (Some r)
                else Inl (GqlError ''Unauthorized to delete this movie'' ''Unauthorized''))))"


section \<open>Notions of the specification\<close>

text \<open>The group set of an identity: empty when the claim is absent.\<close>

definition groupSet :: "identity \<Rightarrow> string set" where
  "groupSet I = (case groups I of None \<Rightarrow> {} | Some gs \<Rightarrow> set gs)"

text \<open>
  A caller exhausts a listing by calling again with each continuation token it is given,
  until none comes back. \<open>fetchAll\<close> does so on the data source, with the store's own
  tokens; \<open>listAllPages\<close> does so on the listMovies resolver, with the tokens the
  response template lets through.
\<close>

fun requestToken :: "list_request \<Rightarrow> token option" where
  "requestToken (Scan limit flt tok) = tok"
| "requestToken (Query idx u limit tok) = tok"

fun withToken :: "list_request \<Rightarrow> token option \<Rightarrow> list_request" where
  "withToken (Scan limit flt tok) tok' = Scan limit flt tok'"
| "withToken (Query idx u limit tok) tok' = Query idx u limit tok'"

definition itemsOf :: "movie list option \<Rightarrow> movie list" where
  "itemsOf r = (case r of None \<Rightarrow> [] | Some ms \<Rightarrow> ms)"

function fetchAll :: "table \<Rightarrow> list_request \<Rightarrow> ds_error + movie list" where
  "fetchAll t r =
     (case lctx_error (executeList t r) of
        Some e \<Rightarrow> Inl e
      | None \<Rightarrow>
          (case lctx_nextToken (executeList t r) of
             None \<Rightarrow> Inr (itemsOf (lctx_items (executeList t r)))
           | Some n \<Rightarrow>
               (case fetchAll t (withToken r (Some n)) of
                  Inl e \<Rightarrow> Inl e
                | Inr rest \<Rightarrow> Inr (itemsOf (lctx_items (executeList t r)) @ rest))))"
  by pat_completeness auto
termination
proof (relation "measure (\<lambda>(t, r). length t - offset (requestToken r))")
  show "wf (measure (\<lambda>(t, r). length t - offset (requestToken r)))" by simp
next
  fix t r n
  assume e: "lctx_error (executeList t r) = None"
    and n: "lctx_nextToken (executeList t r) = Some n"
  have pg: "offset tok < k \<and> k \<le> length xs"
    if "snd (page xs l tok) = Some k" and "1 \<le> l" for xs l tok k
    using that by (auto simp: page_def Let_def split: if_splits)
  have "offset (requestToken r) < n \<and> n \<le> length t"
  proof (cases r)
    case (Scan limit flt tok)
    with e have "1 \<le> limit" by (simp add: failedList_def split: if_splits)
    moreover from n Scan have "snd (page t limit tok) = Some n"
      by (simp add: failedList_def split: if_splits prod.splits)
    ultimately show ?thesis using pg Scan by simp
  next
    case (Query idx u limit tok)
    with e have l: "1 \<le> limit" and i: "idx = ''CreatedByIndex''"
      by (simp_all add: failedList_def split: if_splits)
    from n Query i have "snd (page (owned u t) limit tok) = Some n"
      by (simp add: failedList_def split: if_splits prod.splits)
    from pg [OF this l] have a: "offset tok < n"
      and b: "n \<le> length (owned u t)"
      by simp_all
    from b have "n \<le> length t"
      unfolding owned_def by (rule order_trans) (rule length_filter_le)
    with a show ?thesis using Query by simp
  qed
  then show "((t, withToken r (Some n)), (t, r)) \<in> measure (\<lambda>(t, r). length t - offset (requestToken r))"
    by (cases r) (auto simp: offset_def)
qed

function listAllPages ::
  "variant \<Rightarrow> table \<Rightarrow> identity \<Rightarrow> int option \<Rightarrow> token option \<Rightarrow> gql_error + movie list" where
  "listAllPages v t I lim tok =
     (case listMovies v t I \<lparr>arg_limit = lim, arg_nextToken = tok\<rparr> of
        Inl e \<Rightarrow> Inl e
      | Inr c \<Rightarrow>
          (case conn_nextToken c of
             None \<Rightarrow> Inr (itemsOf (conn_items c))
           | Some n \<Rightarrow>
               (case listAllPages v t I lim (Some n) of
                  Inl e \<Rightarrow> Inl e
                | Inr rest \<Rightarrow> Inr (itemsOf (conn_items c) @ rest))))"
  by pat_completeness auto
termination
proof (relation "measure (\<lambda>(v, t, I, lim, tok). length t - offset tok)")
  show "wf (measure (\<lambda>(v, t, I, lim, tok). length t - offset tok))" by simp
next
  fix v t I lim tok c n
  assume r: "listMovies v t I \<lparr>arg_limit = lim, arg_nextToken = tok\<rparr> = Inr c"
    and n: "conn_nextToken c = Some n"
  define q where "q = listMoviesRequest v I \<lparr>arg_limit = lim, arg_nextToken = tok\<rparr>"
  have tq: "requestToken q = tok"
    by (simp add: q_def listMoviesRequest_def Let_def split: variant.splits)
  have pg: "offset tk < k \<and> k \<le> length xs"
    if "snd (page xs l tk) = Some k" and "1 \<le> l" for xs l tk k
    using that by (auto simp: page_def Let_def split: if_splits)
  from r n have e: "lctx_error (executeList t q) = None"
    and m: "lctx_nextToken (executeList t q) = Some n"
    by (auto simp: listMovies_def listMoviesResponse_def q_def
        split: option.splits variant.splits if_splits)
  have "offset (requestToken q) < n \<and> n \<le> length t"
  proof (cases q)
    case (Scan limit flt tk)
    with e have "1 \<le> limit" by (simp add: failedList_def split: if_splits)
    moreover from m Scan have "snd (page t limit tk) = Some n"
      by (simp add: failedList_def split: if_splits prod.splits)
    ultimately show ?thesis using pg Scan by simp
  next
    case (Query idx u limit tk)
    with e have l: "1 \<le> limit" and i: "idx = ''CreatedByIndex''"
      by (simp_all add: failedList_def split: if_splits)
    from m Query i have "snd (page (owned u t) limit tk) = Some n"
      by (simp add: failedList_def split: if_splits prod.splits)
    from pg [OF this l] have a: "offset tk < n"
      and b: "n \<le> length (owned u t)"
      by simp_all
    from b have "n \<le> length t"
      unfolding owned_def by (rule order_trans) (rule length_filter_le)
    with a show ?thesis using Query by simp
  qed
  with tq show "((v, t, I, lim, Some n), (v, t, I, lim, tok))
      \<in> measure (\<lambda>(v, t, I, lim, tok). length t - offset tok)"
    by (auto simp: offset_def)
qed

declare fetchAll.simps [simp del] listAllPages.simps [simp del]

text \<open>The key a single-item request addresses.\<close>

fun requestKey :: "item_request \<Rightarrow> string" where
  "requestKey (GetItem k) = k"
| "requestKey (PutItem k ti y p cb cbe) = k"
| "requestKey (UpdateItem k ti y p) = k"
| "requestKey (DeleteItem k) = k"

text \<open>A limit is acceptable to the store when it is absent (a default applies) or positive.\<close>

definition validLimit :: "int option \<Rightarrow> bool" where
  "validLimit lim = (case lim of None \<Rightarrow> True | Some l \<Rightarrow> 1 \<le> l)"

subsection \<open>Sample data\<close>

definition movieM :: movie where
  "movieM = \<lparr>movie_id = ''m1'', title = Some ''Inception'', publishingYear = Some 2010,
              poster = None, createdBy = ''user-a'', createdByEmail = ''a@example.com''\<rparr>"

definition movieN :: movie where
  "movieN = \<lparr>movie_id = ''m2'', title = Some ''Heat'', publishingYear = Some 1995,
              poster = None, createdBy = ''user-b'', createdByEmail = ''b@example.com''\<rparr>"

definition identityA :: identity where
  "identityA = \<lparr>sub = ''user-a'', email = ''a@example.com'', groups = None\<rparr>"

definition identityB :: identity where
  "identityB = \<lparr>sub = ''user-b'', email = ''b@example.com'', groups = Some [''Users'']\<rparr>"

definition identityAdmin :: identity where
  "identityAdmin = \<lparr>sub = ''user-r'', email = ''root@example.com'',
                     groups = Some [''Users'', ''Admins'']\<rparr>"

definition sampleArgs :: movie_args where
  "sampleArgs = \<lparr>arg_title = Some ''Tenet'', arg_publishingYear = Some 2020,
                  arg_poster = Some ''tenet.png''\<rparr>"

section \<open>Facts about the store and the group tests\<close>

lemma fold_admin: "fold (\<lambda>g a. if g = x then True else a) gs b = (b \<or> x \<in> set gs)"
  by (induction gs arbitrary: b) auto

lemma isAdmin_iff: "isAdmin I = (''Admins'' \<in> groupSet I)"
  unfolding isAdmin_def groupSet_def fold_admin by (simp split: option.split)

lemma groupsContainAdmins_iff: "groupsContainAdmins I = (''Admins'' \<in> groupSet I)"
  by (simp add: groupsContainAdmins_def groupSet_def split: option.split)

lemma getItem_Some_iff:
  "getItem t k = Some m \<Longrightarrow> m \<in> set t \<and> movie_id m = k"
  unfolding getItem_def by (induction t) (auto split: if_splits)

lemma getItem_None_iff: "getItem t k = None \<longleftrightarrow> k \<notin> set (map movie_id t)"
  unfolding getItem_def by (induction t) auto

lemma getItem_stored:
  "wf_table t \<Longrightarrow> m \<in> set t \<Longrightarrow> getItem t (movie_id m) = Some m"
  unfolding getItem_def wf_table_def by (induction t) auto

lemma getItem_updateItem_same:
  assumes "getItem t k = Some m" and "\<And>x. movie_id (f x) = movie_id x"
  shows "getItem (updateItem t k f) k = Some (f m)"
  using assms unfolding getItem_def updateItem_def
  by (induction t) (auto split: if_splits)

lemma find_snoc_fresh: "find P xs = None \<Longrightarrow> P m \<Longrightarrow> find P (xs @ [m]) = Some m"
  by (induction xs) (auto split: if_splits)

lemma find_replace:
  "find (\<lambda>x. movie_id x = movie_id m) t = Some a \<Longrightarrow>
   find (\<lambda>x. movie_id x = movie_id m) (map (\<lambda>x. if movie_id x = movie_id m then m else x) t) = Some m"
  by (induction t) (auto split: if_splits)

lemma getItem_putItem_same: "getItem (putItem t m) (movie_id m) = Some m"
proof (cases "getItem t (movie_id m)")
  case None
  then show ?thesis
    by (simp add: putItem_def getItem_def find_snoc_fresh)
next
  case (Some a)
  then show ?thesis
    by (simp add: putItem_def getItem_def find_replace)
qed

lemma getItem_deleteItem_same: "getItem (deleteItem t k) k = None"
  by (auto simp: getItem_None_iff deleteItem_def)

lemma wf_table_nonempty: "wf_table t \<Longrightarrow> m \<in> set t \<Longrightarrow> movie_id m \<noteq> []"
  by (force simp: wf_table_def)

lemma executeItem_updated:
  assumes "getItem t k = Some m" and "k \<noteq> []"
  shows "getItem (snd (executeItem t (updateMovieObject k a))) k =
           Some (m\<lparr>title := arg_title a, publishingYear := arg_publishingYear a, poster := arg_poster a\<rparr>)"
  using getItem_updateItem_same [OF assms(1),
      of "\<lambda>x. x\<lparr>title := arg_title a, publishingYear := arg_publishingYear a, poster := arg_poster a\<rparr>"] assms
  by (simp add: updateMovieObject_def Let_def)

lemma wf_table_putItem:
  assumes "wf_table t" and "movie_id m \<noteq> []"
  shows "wf_table (putItem t m)"
proof (cases "getItem t (movie_id m)")
  case None
  with assms show ?thesis
    by (auto simp: putItem_def wf_table_def getItem_None_iff)
next
  case (Some a)
  have e: "map movie_id (map (\<lambda>x. if movie_id x = movie_id m then m else x) t) = map movie_id t"
    by (induction t) auto
  from assms(1) have "wf_table (map (\<lambda>x. if movie_id x = movie_id m then m else x) t)"
    unfolding wf_table_def e .
  with Some show ?thesis by (simp add: putItem_def)
qed

lemma wf_table_updateItem:
  assumes "wf_table t" and "\<And>x. movie_id (f x) = movie_id x"
  shows "wf_table (updateItem t k f)"
proof -
  have e: "map movie_id (updateItem t k f) = map movie_id t"
    unfolding updateItem_def using assms(2) by (induction t) auto
  from assms(1) show ?thesis unfolding wf_table_def e .
qed

lemma wf_table_deleteItem: "wf_table t \<Longrightarrow> wf_table (deleteItem t k)"
  by (auto simp: wf_table_def deleteItem_def distinct_map_filter)

lemma executeItem_preserves_wf:
  assumes "wf_table t" and "requestKey r \<noteq> []"
  shows "wf_table (snd (executeItem t r))"
proof (cases r)
  case (GetItem k)
  with assms show ?thesis by simp
next
  case (PutItem k ti y p cb cbe)
  with assms show ?thesis by (simp add: Let_def wf_table_putItem)
next
  case (UpdateItem k ti y p)
  with assms show ?thesis
    by (simp add: Let_def wf_table_updateItem split: option.split)
next
  case (DeleteItem k)
  with assms show ?thesis by (simp add: wf_table_deleteItem)
qed

section \<open>Facts about the rendered requests\<close>

lemma templates_wellFormed:
  "wellFormedMembers (listMoviesTemplate v I a)"
  "wellFormedMembers getMovieTemplate"
  "wellFormedMembers createMovieTemplate"
  by (cases v; simp add: listMoviesTemplate_def getMovieTemplate_def createMovieTemplate_def
      split: option.split)+

lemma templates_refused:
  "\<not> wellFormedMembers updateMovieTemplate"
  "\<not> wellFormedMembers deleteMovieTemplate"
  by (simp_all add: updateMovieTemplate_def deleteMovieTemplate_def)

lemma updateMovie_refused: "updateMovie t I k a = (Inl mappingTemplateError, t)"
  by (simp add: updateMovie_def updateMovieRequest_def parseTemplate_def templates_refused)


section \<open>Facts about pages and exhausted listings\<close>

lemma page_fst: "fst (page xs l tok) = take (nat l) (drop (offset tok) xs)"
  by (simp add: page_def Let_def)

lemma page_snd_None:
  assumes "snd (page xs l tok) = None"
  shows "take (nat l) (drop (offset tok) xs) = drop (offset tok) xs"
  using assms by (simp add: page_def Let_def min_def split: if_splits)

lemma page_snd_Some:
  assumes "snd (page xs l tok) = Some k" and "1 \<le> l"
  shows "k = offset tok + nat l" and "offset tok < k" and "k \<le> length xs"
  using assms by (auto simp: page_def Let_def split: if_splits)

lemma page_rest:
  "take n (drop i xs) @ drop (i + n) xs = drop i xs"
proof -
  have "take n (drop i xs) @ drop n (drop i xs) = drop i xs"
    by (rule append_take_drop_id)
  then show ?thesis by (simp add: add.commute)
qed

lemma applyFilter_append: "applyFilter flt (xs @ ys) = applyFilter flt xs @ applyFilter flt ys"
  by (simp add: applyFilter_def owned_def split: option.split)

lemma executeList_Scan:
  assumes "1 \<le> l"
  shows "executeList t (Scan l flt tok) =
           \<lparr>lctx_error = None,
            lctx_items = Some (applyFilter flt (take (nat l) (drop (offset tok) t))),
            lctx_nextToken = snd (page t l tok)\<rparr>"
  using assms by (simp add: applyFilter_def owned_def page_def Let_def split: option.split)

lemma executeList_Query:
  assumes "1 \<le> l"
  shows "executeList t (Query ''CreatedByIndex'' u l tok) =
           \<lparr>lctx_error = None,
            lctx_items = Some (take (nat l) (drop (offset tok) (owned u t))),
            lctx_nextToken = snd (page (owned u t) l tok)\<rparr>"
  using assms by (simp add: owned_def page_def Let_def)

lemma fetchAll_Scan:
  assumes l: "1 \<le> l"
  shows "fetchAll t (Scan l flt tok) = Inr (applyFilter flt (drop (offset tok) t))"
proof (induction "length t - offset tok" arbitrary: tok rule: less_induct)
  case less
  show ?case
  proof (cases "snd (page t l tok)")
    case None
    then show ?thesis
      by (subst fetchAll.simps) (simp add: executeList_Scan [OF l] page_snd_None itemsOf_def del: executeList.simps)
  next
    case (Some k)
    note k = page_snd_Some [OF Some l]
    have "length t - offset (Some k) < length t - offset tok"
      using k by (simp add: offset_def)
    then have "fetchAll t (Scan l flt (Some k)) = Inr (applyFilter flt (drop (offset (Some k)) t))"
      by (rule less)
    then have rest: "fetchAll t (Scan l flt (Some k)) = Inr (applyFilter flt (drop (offset tok + nat l) t))"
      using k(1) by (simp add: offset_def)
    have "applyFilter flt (take (nat l) (drop (offset tok) t)) @ applyFilter flt (drop (offset tok + nat l) t)
            = applyFilter flt (drop (offset tok) t)"
      by (simp only: applyFilter_append [symmetric] page_rest)
    then show ?thesis
      using Some rest
      by (subst fetchAll.simps) (simp add: executeList_Scan [OF l] itemsOf_def del: executeList.simps)
  qed
qed

lemma fetchAll_Query:
  assumes l: "1 \<le> l"
  shows "fetchAll t (Query ''CreatedByIndex'' u l tok) = Inr (drop (offset tok) (owned u t))"
proof (induction "length (owned u t) - offset tok" arbitrary: tok rule: less_induct)
  case less
  show ?case
  proof (cases "snd (page (owned u t) l tok)")
    case None
    then show ?thesis
      by (subst fetchAll.simps) (simp add: executeList_Query [OF l] page_snd_None itemsOf_def del: executeList.simps)
  next
    case (Some k)
    note k = page_snd_Some [OF Some l]
    have "length (owned u t) - offset (Some k) < length (owned u t) - offset tok"
      using k by (simp add: offset_def)
    then have "fetchAll t (Query ''CreatedByIndex'' u l (Some k)) = Inr (drop (offset (Some k)) (owned u t))"
      by (rule less)
    then have rest: "fetchAll t (Query ''CreatedByIndex'' u l (Some k)) = Inr (drop (offset tok + nat l) (owned u t))"
      using k(1) by (simp add: offset_def)
    show ?thesis
      using Some rest
      by (subst fetchAll.simps) (simp add: executeList_Query [OF l] itemsOf_def page_rest del: executeList.simps)
  qed
qed


lemma validLimit_default: "validLimit lim \<Longrightarrow> 1 \<le> defaultIfNull lim (defaultLimit v)"
  by (cases v) (simp_all add: validLimit_def defaultIfNull_def defaultLimit_def split: option.splits)

lemma listMovies_admin:
  assumes "''Admins'' \<in> groupSet I" and "1 \<le> defaultIfNull (arg_limit a) (defaultLimit v)"
  shows "listMovies v t I a =
           Inr \<lparr>conn_items = Some (take (nat (defaultIfNull (arg_limit a) (defaultLimit v)))
                                    (drop (offset (arg_nextToken a)) t)),
                conn_nextToken = snd (page t (defaultIfNull (arg_limit a) (defaultLimit v)) (arg_nextToken a))\<rparr>"
proof -
  let ?l = "defaultIfNull (arg_limit a) (defaultLimit v)"
  have r: "listMoviesRequest v I a = Scan ?l None (arg_nextToken a)"
    using assms(1) by (simp add: listMoviesRequest_def groupsContainAdmins_iff)
  have "take (nat ?l) (drop (offset (arg_nextToken a)) t) = [] \<Longrightarrow> snd (page t ?l (arg_nextToken a)) = None"
    using assms(2) by (simp add: page_def Let_def)
  then show ?thesis
    unfolding listMovies_def r executeList_Scan [OF assms(2)]
    by (cases v) (auto simp: listMoviesResponse_def applyFilter_def)
qed


lemma listMovies_Query_nonadmin:
  assumes "''Admins'' \<notin> groupSet I" and "1 \<le> defaultIfNull (arg_limit a) (defaultLimit QueryVariant)"
  shows "listMovies QueryVariant t I a =
           Inr \<lparr>conn_items = Some (take (nat (defaultIfNull (arg_limit a) (defaultLimit QueryVariant)))
                                    (drop (offset (arg_nextToken a)) (owned (sub I) t))),
                conn_nextToken = snd (page (owned (sub I) t)
                                   (defaultIfNull (arg_limit a) (defaultLimit QueryVariant)) (arg_nextToken a))\<rparr>"
proof -
  let ?l = "defaultIfNull (arg_limit a) (defaultLimit QueryVariant)"
  have r: "listMoviesRequest QueryVariant I a = Query ''CreatedByIndex'' (sub I) ?l (arg_nextToken a)"
    using assms(1) by (simp add: listMoviesRequest_def groupsContainAdmins_iff)
  show ?thesis
    unfolding listMovies_def r executeList_Query [OF assms(2)]
    by (simp add: listMoviesResponse_def)
qed

lemma listMovies_Scan_nonadmin:
  assumes "''Admins'' \<notin> groupSet I" and "1 \<le> defaultIfNull (arg_limit a) (defaultLimit ScanVariant)"
  shows "listMovies ScanVariant t I a =
           (if owned (sub I) (take (nat (defaultIfNull (arg_limit a) (defaultLimit ScanVariant)))
                                (drop (offset (arg_nextToken a)) t)) = []
            then Inr \<lparr>conn_items = Some [], conn_nextToken = None\<rparr>
            else Inr \<lparr>conn_items = Some (owned (sub I)
                          (take (nat (defaultIfNull (arg_limit a) (defaultLimit ScanVariant)))
                             (drop (offset (arg_nextToken a)) t))),
                      conn_nextToken = snd (page t (defaultIfNull (arg_limit a) (defaultLimit ScanVariant))
                                         (arg_nextToken a))\<rparr>)"
proof -
  let ?l = "defaultIfNull (arg_limit a) (defaultLimit ScanVariant)"
  have r: "listMoviesRequest ScanVariant I a = Scan ?l (Some (sub I)) (arg_nextToken a)"
    using assms(1) by (simp add: listMoviesRequest_def groupsContainAdmins_iff)
  show ?thesis
    unfolding listMovies_def r executeList_Scan [OF assms(2)]
    by (simp add: listMoviesResponse_def applyFilter_def)
qed

lemma listAllPages_admin:
  assumes adm: "''Admins'' \<in> groupSet I" and lim: "validLimit lim"
  shows "listAllPages v t I lim tok = Inr (drop (offset tok) t)"
proof (induction "length t - offset tok" arbitrary: tok rule: less_induct)
  case less
  let ?l = "defaultIfNull lim (defaultLimit v)"
  have l: "1 \<le> ?l" using lim by (rule validLimit_default)
  have pg: "listMovies v t I \<lparr>arg_limit = lim, arg_nextToken = tok\<rparr> =
           Inr \<lparr>conn_items = Some (take (nat ?l) (drop (offset tok) t)),
                conn_nextToken = snd (page t ?l tok)\<rparr>"
    using listMovies_admin [OF adm, of "\<lparr>arg_limit = lim, arg_nextToken = tok\<rparr>" v t] l by simp
  show ?case
  proof (cases "snd (page t ?l tok)")
    case None
    then show ?thesis
      by (subst listAllPages.simps) (simp add: pg page_snd_None itemsOf_def)
  next
    case (Some k)
    note k = page_snd_Some [OF Some l]
    have "length t - offset (Some k) < length t - offset tok"
      using k by (simp add: offset_def)
    then have "listAllPages v t I lim (Some k) = Inr (drop (offset (Some k)) t)"
      by (rule less)
    then have rest: "listAllPages v t I lim (Some k) = Inr (drop (offset tok + nat ?l) t)"
      using k(1) by (simp add: offset_def)
    show ?thesis
      using Some rest
      by (subst listAllPages.simps) (simp add: pg itemsOf_def page_rest)
  qed
qed

lemma listAllPages_Query_nonadmin:
  assumes non: "''Admins'' \<notin> groupSet I" and lim: "validLimit lim"
  shows "listAllPages QueryVariant t I lim tok = Inr (drop (offset tok) (owned (sub I) t))"
proof (induction "length (owned (sub I) t) - offset tok" arbitrary: tok rule: less_induct)
  case less
  let ?l = "defaultIfNull lim (defaultLimit QueryVariant)"
  let ?xs = "owned (sub I) t"
  have l: "1 \<le> ?l" using lim by (rule validLimit_default)
  have pg: "listMovies QueryVariant t I \<lparr>arg_limit = lim, arg_nextToken = tok\<rparr> =
           Inr \<lparr>conn_items = Some (take (nat ?l) (drop (offset tok) ?xs)),
                conn_nextToken = snd (page ?xs ?l tok)\<rparr>"
    using listMovies_Query_nonadmin [OF non, of "\<lparr>arg_limit = lim, arg_nextToken = tok\<rparr>" t] l by simp
  show ?case
  proof (cases "snd (page ?xs ?l tok)")
    case None
    then show ?thesis
      by (subst listAllPages.simps) (simp add: pg page_snd_None itemsOf_def)
  next
    case (Some k)
    note k = page_snd_Some [OF Some l]
    have "length ?xs - offset (Some k) < length ?xs - offset tok"
      using k by (simp add: offset_def)
    then have "listAllPages QueryVariant t I lim (Some k) = Inr (drop (offset (Some k)) ?xs)"
      by (rule less)
    then have rest: "listAllPages QueryVariant t I lim (Some k) = Inr (drop (offset tok + nat ?l) ?xs)"
      using k(1) by (simp add: offset_def)
    show ?thesis
      using Some rest
      by (subst listAllPages.simps) (simp add: pg itemsOf_def page_rest)
  qed
qed

lemma listAllPages_Scan_nonadmin:
  assumes non: "''Admins'' \<notin> groupSet I" and lim: "validLimit lim"
  shows "\<exists>n. listAllPages ScanVariant t I lim tok = Inr (owned (sub I) (take n (drop (offset tok) t)))"
proof (induction "length t - offset tok" arbitrary: tok rule: less_induct)
  case less
  let ?l = "defaultIfNull lim (defaultLimit ScanVariant)"
  let ?pg = "owned (sub I) (take (nat ?l) (drop (offset tok) t))"
  have l: "1 \<le> ?l" using lim by (rule validLimit_default)
  note lm = listMovies_Scan_nonadmin [OF non, of "\<lparr>arg_limit = lim, arg_nextToken = tok\<rparr>" t]
  show ?case
  proof (cases "?pg = []")
    case True
    then have "listAllPages ScanVariant t I lim tok = Inr (owned (sub I) (take 0 (drop (offset tok) t)))"
      using lm l by (subst listAllPages.simps) (simp add: itemsOf_def owned_def)
    then show ?thesis ..
  next
    case False
    then have pg: "listMovies ScanVariant t I \<lparr>arg_limit = lim, arg_nextToken = tok\<rparr> =
        Inr \<lparr>conn_items = Some ?pg, conn_nextToken = snd (page t ?l tok)\<rparr>"
      using lm l by simp
    show ?thesis
    proof (cases "snd (page t ?l tok)")
      case None
      then have "listAllPages ScanVariant t I lim tok = Inr (owned (sub I) (take (nat ?l) (drop (offset tok) t)))"
        by (subst listAllPages.simps) (simp add: pg itemsOf_def)
      then show ?thesis ..
    next
      case (Some k)
      note k = page_snd_Some [OF Some l]
      have "length t - offset (Some k) < length t - offset tok"
        using k by (simp add: offset_def)
      then have "\<exists>n. listAllPages ScanVariant t I lim (Some k) = Inr (owned (sub I) (take n (drop (offset (Some k)) t)))"
        by (rule less)
      then obtain n where rest: "listAllPages ScanVariant t I lim (Some k)
          = Inr (owned (sub I) (take n (drop (nat ?l) (drop (offset tok) t))))"
        using k(1) by (auto simp: offset_def add.commute)
      have "?pg @ owned (sub I) (take n (drop (nat ?l) (drop (offset tok) t)))
              = owned (sub I) (take (nat ?l + n) (drop (offset tok) t))"
        by (simp add: owned_def take_add del: drop_drop)
      then have "listAllPages ScanVariant t I lim tok = Inr (owned (sub I) (take (nat ?l + n) (drop (offset tok) t)))"
        using Some rest
        by (subst listAllPages.simps) (simp add: pg itemsOf_def del: drop_drop)
      then show ?thesis ..
    qed
  qed
qed

lemma listMovies_Inr_limit:
  assumes "listMovies v t I a = Inr c"
  shows "1 \<le> defaultIfNull (arg_limit a) (defaultLimit v)"
proof (rule ccontr)
  assume "\<not> 1 \<le> defaultIfNull (arg_limit a) (defaultLimit v)"
  then have "lctx_error (executeList t (listMoviesRequest v I a)) \<noteq> None"
    by (cases v) (simp_all add: listMoviesRequest_def failedList_def Let_def)
  then show False
    using assms by (auto simp: listMovies_def listMoviesResponse_def)
qed

lemma owned_member: "m \<in> set (owned u xs) \<longleftrightarrow> m \<in> set xs \<and> createdBy m = u"
  by (simp add: owned_def)

section \<open>Reading one record\<close>

text \<open>
  C1: for a record \<open>R\<close> stored in the table and any identity \<open>I\<close>, getMovie on the
  id of \<open>R\<close> returns \<open>R\<close> exactly when the groups of \<open>I\<close> contain \<^verbatim>\<open>Admins\<close> or
  the sub of \<open>I\<close> is the creator of \<open>R\<close>; otherwise it fails with the error type
  \<^verbatim>\<open>Unauthorized\<close>. The table is left as it was.
\<close>

theorem getMovie_authorization:
  assumes "wf_table t" and "R \<in> set t"
  shows "getMovie t I (movie_id R) =
           (if ''Admins'' \<in> groupSet I \<or> sub I = createdBy R then Inr (Some R)
            else Inl (GqlError ''Unauthorized to view this movie'' ''Unauthorized''), t)"
  using getItem_stored [OF assms] wf_table_nonempty [OF assms]
  by (auto simp: getMovie_def getMovieRequest_def getMovieResponse_def isAdmin_iff)

theorem getMovie_authorization_witness:
  "wf_table [movieM] \<and> movieM \<in> set [movieM]
   \<and> getMovie [movieM] identityB (movie_id movieM) =
       (Inl (GqlError ''Unauthorized to view this movie'' ''Unauthorized''), [movieM])
   \<and> getMovie [movieM] identityA (movie_id movieM) = (Inr (Some movieM), [movieM])"
proof -
  have w: "wf_table [movieM]" by (simp add: wf_table_def movieM_def)
  have m: "movieM \<in> set [movieM]" by simp
  show ?thesis
    using w m getMovie_authorization [OF w m, of identityB] getMovie_authorization [OF w m, of identityA]
    by (simp add: groupSet_def identityA_def identityB_def movieM_def)
qed


text \<open>
  C8, as stated: getMovie on an id that names no record fails with \<^verbatim>\<open>NotFound\<close> for
  every identity. The empty string is an id that names no record; the store refuses it
  as a key, and the response template passes that error on, with the store's type,
  before it tests for a missing result.
\<close>

theorem getMovie_empty_id_not_NotFound:
  "[] \<notin> set (map movie_id [movieM])
   \<and> getMovie [movieM] identityA [] = (Inl (GqlError (ds_message emptyKey) (ds_type emptyKey)), [movieM])
   \<and> ds_type emptyKey = ''DynamoDB:DynamoDbException''
   \<and> ds_type emptyKey \<noteq> ''NotFound''"
  by (simp add: getMovie_def getMovieRequest_def getMovieResponse_def refusedKey_def emptyKey_def
      movieM_def)

text \<open>
  C8, amended: getMovie on a non-empty id that no item of the table carries fails with
  the error type \<^verbatim>\<open>NotFound\<close> whatever the identity, administrator or not: the
  identity is not consulted on this path. The table is left as it was.
\<close>

theorem getMovie_missing_NotFound:
  assumes "k \<noteq> []" and "k \<notin> set (map movie_id t)"
  shows "getMovie t I k = (Inl (GqlError ''Movie not found'' ''NotFound''), t)"
  using assms getItem_None_iff [of t k]
  by (simp add: getMovie_def getMovieRequest_def getMovieResponse_def)

theorem getMovie_missing_NotFound_witness:
  "''m9'' \<noteq> [] \<and> ''m9'' \<notin> set (map movie_id [movieM])
   \<and> getMovie [movieM] identityAdmin ''m9'' = (Inl (GqlError ''Movie not found'' ''NotFound''), [movieM])
   \<and> getMovie [movieM] identityB ''m9'' = (Inl (GqlError ''Movie not found'' ''NotFound''), [movieM])"
proof -
  have n: "''m9'' \<noteq> []" by simp
  have h: "''m9'' \<notin> set (map movie_id [movieM])" by (simp add: movieM_def)
  show ?thesis
    using n h getMovie_missing_NotFound [OF n h, of identityAdmin]
      getMovie_missing_NotFound [OF n h, of identityB]
    by simp
qed

section \<open>Creating a record\<close>

text \<open>
  C4: for every identity, every generated id and every argument triple, createMovie
  succeeds; the record it returns carries the sub and the email of the identity as
  \<open>createdBy\<close> and \<open>createdByEmail\<close> and the three arguments as given, and it is the
  item stored under the generated id. The arguments have no owner field to take it from.
\<close>

theorem createMovie_stamps_identity:
  "\<exists>m. fst (createMovie t autoId I a) = Inr (Some m)
     \<and> createdBy m = sub I \<and> createdByEmail m = email I
     \<and> movie_id m = autoId \<and> title m = arg_title a
     \<and> publishingYear m = arg_publishingYear a \<and> poster m = arg_poster a
     \<and> getItem (snd (createMovie t autoId I a)) autoId = Some m"
  using getItem_putItem_same [of t "\<lparr>movie_id = autoId, title = arg_title a,
      publishingYear = arg_publishingYear a, poster = arg_poster a,
      createdBy = sub I, createdByEmail = email I\<rparr>"]
  by (simp add: createMovie_def createMovieRequest_def createMovieResponse_def Let_def)

theorem createMovie_stamps_identity_witness:
  "\<exists>m. fst (createMovie [movieM] ''m2'' identityB sampleArgs) = Inr (Some m)
     \<and> createdBy m = ''user-b'' \<and> createdByEmail m = ''b@example.com''"
  using createMovie_stamps_identity [of "[movieM]" "''m2''" identityB sampleArgs]
  by (auto simp: identityB_def)

section \<open>Updating a record\<close>

text \<open>
  As written, the request template of updateMovie is refused for every call: nothing
  reaches the store. The request it spells out, executed by the store and answered by
  the response template, reports a missing non-empty id as \<^verbatim>\<open>NotFound\<close> and
  leaves the table as it was.
\<close>

lemma updateMovieObject_missing_NotFound:
  assumes "k \<noteq> []" and "k \<notin> set (map movie_id t)"
  shows "updateMovieResponse I (fst (executeItem t (updateMovieObject k a)))
           = Inl (GqlError ''Movie not found'' ''NotFound'')"
    and "snd (executeItem t (updateMovieObject k a)) = t"
  using assms getItem_None_iff [of t k]
  by (simp_all add: updateMovieObject_def updateMovieResponse_def conditionalCheckFailed_def)


text \<open>
  C6: for a record \<open>R\<close> stored in the table, after updateMovie on the id of \<open>R\<close> (by
  any identity) the item stored under that id has the id, \<open>createdBy\<close> and
  \<open>createdByEmail\<close> of \<open>R\<close>. As written the request is refused and nothing is
  rewritten; the update the template spells out, executed by the store, rewrites the
  title, the publishing year and the poster and keeps the same three fields.
\<close>

theorem updateMovie_frame:
  assumes "wf_table t" and "R \<in> set t"
  shows "(\<exists>R'. getItem (snd (updateMovie t I (movie_id R) a)) (movie_id R) = Some R'
            \<and> movie_id R' = movie_id R \<and> createdBy R' = createdBy R
            \<and> createdByEmail R' = createdByEmail R)
       \<and> (\<exists>R'. getItem (snd (executeItem t (updateMovieObject (movie_id R) a))) (movie_id R) = Some R'
            \<and> movie_id R' = movie_id R \<and> createdBy R' = createdBy R
            \<and> createdByEmail R' = createdByEmail R
            \<and> title R' = arg_title a \<and> publishingYear R' = arg_publishingYear a
            \<and> poster R' = arg_poster a)"
proof
  show "\<exists>R'. getItem (snd (updateMovie t I (movie_id R) a)) (movie_id R) = Some R'
            \<and> movie_id R' = movie_id R \<and> createdBy R' = createdBy R
            \<and> createdByEmail R' = createdByEmail R"
    using getItem_stored [OF assms] by (simp add: updateMovie_refused)
next
  show "\<exists>R'. getItem (snd (executeItem t (updateMovieObject (movie_id R) a))) (movie_id R) = Some R'
            \<and> movie_id R' = movie_id R \<and> createdBy R' = createdBy R
            \<and> createdByEmail R' = createdByEmail R
            \<and> title R' = arg_title a \<and> publishingYear R' = arg_publishingYear a
            \<and> poster R' = arg_poster a"
    using executeItem_updated [OF getItem_stored [OF assms] wf_table_nonempty [OF assms], of a]
    by simp
qed

theorem updateMovie_frame_witness:
  "wf_table [movieM, movieN] \<and> movieN \<in> set [movieM, movieN]
   \<and> (\<exists>R'. getItem (snd (updateMovie [movieM, movieN] identityB (movie_id movieN) sampleArgs))
              (movie_id movieN) = Some R'
        \<and> movie_id R' = ''m2'' \<and> createdBy R' = ''user-b''
        \<and> createdByEmail R' = ''b@example.com'')
   \<and> (\<exists>R'. getItem (snd (executeItem [movieM, movieN] (updateMovieObject (movie_id movieN) sampleArgs)))
              (movie_id movieN) = Some R'
        \<and> movie_id R' = ''m2'' \<and> createdBy R' = ''user-b''
        \<and> createdByEmail R' = ''b@example.com'' \<and> title R' = Some ''Tenet'')"
proof -
  have w: "wf_table [movieM, movieN]" by (simp add: wf_table_def movieM_def movieN_def)
  have m: "movieN \<in> set [movieM, movieN]" by simp
  show ?thesis
    using w m updateMovie_frame [OF w m, of identityB sampleArgs]
    by (auto simp: movieN_def sampleArgs_def)
qed

text \<open>
  C7: the same updateMovie call made a second time, on the table the first call left,
  returns the same result and leaves the same table as the first call. As written both
  calls are refused and the table is the original one; the update the template spells
  out is idempotent at the store as well.
\<close>

theorem updateMovie_idempotent:
  "updateMovie (snd (updateMovie t I k a)) I k a = updateMovie t I k a
   \<and> executeItem (snd (executeItem t (updateMovieObject k a))) (updateMovieObject k a)
       = executeItem t (updateMovieObject k a)"
proof
  show "updateMovie (snd (updateMovie t I k a)) I k a = updateMovie t I k a"
    by (simp add: updateMovie_refused)
next
  let ?upd = "\<lambda>x. x\<lparr>title := arg_title a, publishingYear := arg_publishingYear a, poster := arg_poster a\<rparr>"
  show "executeItem (snd (executeItem t (updateMovieObject k a))) (updateMovieObject k a)
       = executeItem t (updateMovieObject k a)"
  proof (cases "k = []")
    case True
    then show ?thesis by (simp add: updateMovieObject_def)
  next
    case False
    show ?thesis
    proof (cases "getItem t k")
      case None
      with False show ?thesis by (simp add: updateMovieObject_def)
    next
      case (Some m)
      have g: "getItem (updateItem t k ?upd) k = Some (?upd m)"
        using getItem_updateItem_same [OF Some, of ?upd] by simp
      have u: "updateItem (updateItem t k ?upd) k ?upd = updateItem t k ?upd"
        by (simp add: updateItem_def)
      show ?thesis
        using False Some g u by (simp add: updateMovieObject_def Let_def)
    qed
  qed
qed

theorem updateMovie_idempotent_witness:
  "snd (updateMovie (snd (updateMovie [movieM] identityA ''m1'' sampleArgs)) identityA ''m1'' sampleArgs)
     = [movieM]
   \<and> snd (executeItem (snd (executeItem [movieM] (updateMovieObject ''m1'' sampleArgs)))
            (updateMovieObject ''m1'' sampleArgs))
     = [movieM\<lparr>title := Some ''Tenet'', publishingYear := Some 2020, poster := Some ''tenet.png''\<rparr>]"
proof -
  have a: "snd (updateMovie [movieM] identityA ''m1'' sampleArgs) = [movieM]"
    by (simp add: updateMovie_def updateMovieRequest_def parseTemplate_def updateMovieTemplate_def)
  have b: "snd (executeItem [movieM] (updateMovieObject ''m1'' sampleArgs))
          = [movieM\<lparr>title := Some ''Tenet'', publishingYear := Some 2020, poster := Some ''tenet.png''\<rparr>]"
    by (simp add: updateMovieObject_def getItem_def updateItem_def
        movieM_def sampleArgs_def Let_def)
  show ?thesis
    using updateMovie_idempotent [of "[movieM]" identityA "''m1''" sampleArgs] a b by simp
qed

section \<open>Listing records\<close>

text \<open>
  C3: a caller whose groups contain \<^verbatim>\<open>Admins\<close> gets, on each page, the items the
  store evaluated, whoever created them, and by following the tokens from the start the
  whole table; a caller outside that group gets, in both variants, only items of the
  table whose \<open>createdBy\<close> is the caller's sub.
\<close>

theorem listMovies_scope:
  "(''Admins'' \<in> groupSet I \<longrightarrow> listMovies v t I a = Inr c \<longrightarrow>
      conn_items c = Some (take (nat (defaultIfNull (arg_limit a) (defaultLimit v)))
                             (drop (offset (arg_nextToken a)) t)))
   \<and> (''Admins'' \<in> groupSet I \<longrightarrow> validLimit lim \<longrightarrow> listAllPages v t I lim None = Inr t)
   \<and> (''Admins'' \<notin> groupSet I \<longrightarrow> listMovies v t I a = Inr c \<longrightarrow>
      (\<exists>ms. conn_items c = Some ms \<and> (\<forall>m\<in>set ms. m \<in> set t \<and> createdBy m = sub I)))"
proof (intro conjI impI)
  assume adm: "''Admins'' \<in> groupSet I" and r: "listMovies v t I a = Inr c"
  from listMovies_admin [OF adm listMovies_Inr_limit [OF r], of t] r
  show "conn_items c = Some (take (nat (defaultIfNull (arg_limit a) (defaultLimit v)))
                               (drop (offset (arg_nextToken a)) t))"
    by auto
next
  assume "''Admins'' \<in> groupSet I" and "validLimit lim"
  then show "listAllPages v t I lim None = Inr t"
    by (simp add: listAllPages_admin offset_def)
next
  assume non: "''Admins'' \<notin> groupSet I" and r: "listMovies v t I a = Inr c"
  note l = listMovies_Inr_limit [OF r]
  show "\<exists>ms. conn_items c = Some ms \<and> (\<forall>m\<in>set ms. m \<in> set t \<and> createdBy m = sub I)"
  proof (cases v)
    case ScanVariant
    with listMovies_Scan_nonadmin [OF non, of a t] l r
    have "conn_items c = Some [] \<or>
          conn_items c = Some (owned (sub I)
            (take (nat (defaultIfNull (arg_limit a) (defaultLimit ScanVariant)))
               (drop (offset (arg_nextToken a)) t)))"
      by (auto split: if_splits)
    moreover have "m \<in> set t \<and> createdBy m = sub I"
      if "m \<in> set (owned (sub I) (take k (drop i t)))" for m k i
    proof -
      from that have "m \<in> set (take k (drop i t))" and "createdBy m = sub I"
        by (simp_all add: owned_member)
      then show ?thesis
        using in_set_dropD [OF in_set_takeD, of m k i t] by simp
    qed
    ultimately show ?thesis by auto
  next
    case QueryVariant
    with listMovies_Query_nonadmin [OF non, of a t] l r
    have "conn_items c = Some (take (nat (defaultIfNull (arg_limit a) (defaultLimit QueryVariant)))
                                    (drop (offset (arg_nextToken a)) (owned (sub I) t)))"
      by auto
    moreover have "m \<in> set t \<and> createdBy m = sub I"
      if "m \<in> set (take k (drop i (owned (sub I) t)))" for m k i
      using in_set_dropD [OF in_set_takeD [OF that]] by (simp add: owned_member)
    ultimately show ?thesis by blast
  qed
qed

theorem listMovies_scope_witness:
  "''Admins'' \<in> groupSet identityAdmin \<and> validLimit (Some 1)
   \<and> listAllPages ScanVariant [movieM, movieN] identityAdmin (Some 1) None = Inr [movieM, movieN]
   \<and> ''Admins'' \<notin> groupSet identityB
   \<and> listMovies QueryVariant [movieM, movieN] identityB \<lparr>arg_limit = None, arg_nextToken = None\<rparr>
       = Inr \<lparr>conn_items = Some [movieN], conn_nextToken = None\<rparr>
   \<and> (\<exists>ms. conn_items \<lparr>conn_items = Some [movieN], conn_nextToken = None\<rparr> = Some ms
        \<and> (\<forall>m\<in>set ms. m \<in> set [movieM, movieN] \<and> createdBy m = sub identityB))"
proof -
  have a: "''Admins'' \<in> groupSet identityAdmin"
    by (simp add: groupSet_def identityAdmin_def)
  have v: "validLimit (Some 1)" by (simp add: validLimit_def)
  have b: "''Admins'' \<notin> groupSet identityB"
    by (simp add: groupSet_def identityB_def)
  have e: "listMovies QueryVariant [movieM, movieN] identityB \<lparr>arg_limit = None, arg_nextToken = None\<rparr>
       = Inr \<lparr>conn_items = Some [movieN], conn_nextToken = None\<rparr>"
    by (simp add: listMovies_def listMoviesRequest_def listMoviesResponse_def groupsContainAdmins_def
        identityB_def movieM_def movieN_def defaultIfNull_def defaultLimit_def page_def owned_def
        offset_def Let_def)
  note t1 = listMovies_scope [where I = identityAdmin and v = ScanVariant and t = "[movieM, movieN]"
      and lim = "Some 1"]
  note t2 = listMovies_scope [where I = identityB and v = QueryVariant and t = "[movieM, movieN]"
      and a = "\<lparr>arg_limit = None, arg_nextToken = None\<rparr>"
      and c = "\<lparr>conn_items = Some [movieN], conn_nextToken = None\<rparr>"]
  from t1 a v have "listAllPages ScanVariant [movieM, movieN] identityAdmin (Some 1) None = Inr [movieM, movieN]"
    by blast
  moreover from t2 b e
  have "\<exists>ms. conn_items \<lparr>conn_items = Some [movieN], conn_nextToken = None\<rparr> = Some ms
        \<and> (\<forall>m\<in>set ms. m \<in> set [movieM, movieN] \<and> createdBy m = sub identityB)"
    by blast
  ultimately show ?thesis using a v b e by blast
qed

text \<open>
  C9: when the data source answers a listMovies request without an error and with no
  items, the call succeeds, for every identity and in both variants, with an empty item
  list and no continuation token.
\<close>

theorem listMovies_empty_result:
  assumes "lctx_error (executeList t (listMoviesRequest v I a)) = None"
    and "lctx_items (executeList t (listMoviesRequest v I a)) = Some []"
  shows "listMovies v t I a = Inr \<lparr>conn_items = Some [], conn_nextToken = None\<rparr>"
proof (cases v)
  case ScanVariant
  with assms show ?thesis
    by (simp add: listMovies_def listMoviesResponse_def)
next
  case QueryVariant
  have tok: "snd (page xs l tk) = None" if "fst (page xs l tk) = []" and "1 \<le> l" for xs l tk
    using that by (simp add: page_def Let_def)
  have "lctx_nextToken (executeList t (listMoviesRequest v I a)) = None"
  proof (cases "groupsContainAdmins I")
    case True
    then have r: "listMoviesRequest v I a
        = Scan (defaultIfNull (arg_limit a) (defaultLimit v)) None (arg_nextToken a)"
      by (simp add: listMoviesRequest_def)
    from assms(1) have l: "1 \<le> defaultIfNull (arg_limit a) (defaultLimit v)"
      unfolding r by (simp add: failedList_def split: if_splits)
    from assms(2) show ?thesis
      unfolding r executeList_Scan [OF l]
      using tok [OF _ l, of t "arg_nextToken a"] by (simp add: applyFilter_def page_fst)
  next
    case False
    then have r: "listMoviesRequest v I a
        = Query ''CreatedByIndex'' (sub I) (defaultIfNull (arg_limit a) (defaultLimit v)) (arg_nextToken a)"
      using QueryVariant by (simp add: listMoviesRequest_def)
    from assms(1) have l: "1 \<le> defaultIfNull (arg_limit a) (defaultLimit v)"
      unfolding r by (simp add: failedList_def split: if_splits)
    from assms(2) show ?thesis
      unfolding r executeList_Query [OF l]
      using tok [OF _ l, of "owned (sub I) t" "arg_nextToken a"] by (simp add: page_fst)
  qed
  with assms QueryVariant show ?thesis
    by (simp add: listMovies_def listMoviesResponse_def)
qed

theorem listMovies_empty_result_witness:
  "lctx_error (executeList [movieM, movieN] (listMoviesRequest ScanVariant identityB
       \<lparr>arg_limit = Some 1, arg_nextToken = None\<rparr>)) = None
   \<and> lctx_items (executeList [movieM, movieN] (listMoviesRequest ScanVariant identityB
       \<lparr>arg_limit = Some 1, arg_nextToken = None\<rparr>)) = Some []
   \<and> listMovies ScanVariant [movieM, movieN] identityB \<lparr>arg_limit = Some 1, arg_nextToken = None\<rparr>
       = Inr \<lparr>conn_items = Some [], conn_nextToken = None\<rparr>"
proof -
  have r: "executeList [movieM, movieN] (listMoviesRequest ScanVariant identityB
       \<lparr>arg_limit = Some 1, arg_nextToken = None\<rparr>)
      = \<lparr>lctx_error = None, lctx_items = Some [], lctx_nextToken = Some 1\<rparr>"
    by (simp add: listMoviesRequest_def groupsContainAdmins_def
        identityB_def movieM_def movieN_def defaultIfNull_def page_def owned_def applyFilter_def
        offset_def Let_def)
  have e: "lctx_error (executeList [movieM, movieN] (listMoviesRequest ScanVariant identityB
       \<lparr>arg_limit = Some 1, arg_nextToken = None\<rparr>)) = None"
    by (simp add: r)
  have i: "lctx_items (executeList [movieM, movieN] (listMoviesRequest ScanVariant identityB
       \<lparr>arg_limit = Some 1, arg_nextToken = None\<rparr>)) = Some []"
    by (simp add: r)
  show ?thesis
    using e i listMovies_empty_result [OF e i] by blast
qed

text \<open>
  For a caller outside the administrative group and an acceptable limit, the two request
  templates agree at the data source: the filtered Scan and the Query on
  \<^verbatim>\<open>CreatedByIndex\<close>, each followed from the start through the store's own tokens
  until none is returned, yield the items of the table created by the caller, in the same
  order. The Query variant hands exactly these to a caller who pages through listMovies.
\<close>

lemma nonadmin_requests_equivalent:
  assumes non: "''Admins'' \<notin> groupSet I" and lim: "validLimit lim"
  shows "fetchAll t (listMoviesRequest ScanVariant I \<lparr>arg_limit = lim, arg_nextToken = None\<rparr>)
           = Inr (owned (sub I) t)"
    and "fetchAll t (listMoviesRequest QueryVariant I \<lparr>arg_limit = lim, arg_nextToken = None\<rparr>)
           = Inr (owned (sub I) t)"
    and "listAllPages QueryVariant t I lim None = Inr (owned (sub I) t)"
proof -
  have s: "listMoviesRequest ScanVariant I \<lparr>arg_limit = lim, arg_nextToken = None\<rparr>
      = Scan (defaultIfNull lim (defaultLimit ScanVariant)) (Some (sub I)) None"
    using non by (simp add: listMoviesRequest_def groupsContainAdmins_iff)
  show "fetchAll t (listMoviesRequest ScanVariant I \<lparr>arg_limit = lim, arg_nextToken = None\<rparr>)
           = Inr (owned (sub I) t)"
    unfolding s using fetchAll_Scan [OF validLimit_default [OF lim, of ScanVariant], of t "Some (sub I)" None]
    by (simp add: applyFilter_def offset_def)
  have q: "listMoviesRequest QueryVariant I \<lparr>arg_limit = lim, arg_nextToken = None\<rparr>
      = Query ''CreatedByIndex'' (sub I) (defaultIfNull lim (defaultLimit QueryVariant)) None"
    using non by (simp add: listMoviesRequest_def groupsContainAdmins_iff)
  show "fetchAll t (listMoviesRequest QueryVariant I \<lparr>arg_limit = lim, arg_nextToken = None\<rparr>)
           = Inr (owned (sub I) t)"
    unfolding q using fetchAll_Query [OF validLimit_default [OF lim, of QueryVariant], of t "sub I" None]
    by (simp add: offset_def)
  show "listAllPages QueryVariant t I lim None = Inr (owned (sub I) t)"
    using listAllPages_Query_nonadmin [OF non lim, of t None] by (simp add: offset_def)
qed


section \<open>Deleting a record\<close>


text \<open>
  The request the template spells out carries no condition: the store removes the item
  and hands it back, and only then does the response template compare its owner with
  the caller.
\<close>

lemma deleteMovieObject_removes_before_owner_test:
  "executeItem [movieM] (deleteMovieObject ''m1'')
     = (\<lparr>ctx_error = None, ctx_result = Some movieM\<rparr>, [])
   \<and> deleteMovieResponse identityB \<lparr>ctx_error = None, ctx_result = Some movieM\<rparr>
     = Inl (GqlError ''Unauthorized to delete this movie'' ''Unauthorized'')"
  by (simp add: deleteMovieObject_def deleteMovieResponse_def getItem_def deleteItem_def
      isAdmin_def movieM_def identityB_def)

end
